theory Spec2Isabelle
  imports Main
begin

section \<open>Text\<close>

text \<open>
  A Python \<open>str\<close> is modelled as a \<open>string\<close>, a list of characters. HOL characters
  are the code points below 256, so the model covers text in that range; the four
  characters the CSV dialect distinguishes, the whitespace that \<open>str.strip\<close> removes and
  the letters of the exit keywords all lie in it.
\<close>

definition CR :: char where
  "CR = CHR 0x0D"

definition LF :: char where
  "LF = CHR 0x0A"

section \<open>CSV serialization\<close>

text \<open>
  Modelled from the spec: \<open>csv.writer\<close> and \<open>csv.reader\<close> belong to the Python standard
  library, which is not part of the sources. The roster fetcher constructs the writer
  with no arguments (majel.py, line 63), which selects the \<open>excel\<close> dialect: delimiter
  comma, quote character double quote, doubled quotes inside quoted fields, minimal
  quoting and the line terminator CR LF. The definitions follow the spec's
  "standard CSV quoting rules (fields containing delimiters or quotes are quoted;
  embedded quotes doubled)" in the shape of the library's writer and reader.
\<close>

definition delimiter :: char where
  "delimiter = CHR '',''"

definition quotechar :: char where
  "quotechar = CHR 0x22"

definition lineterminator :: string where
  "lineterminator = [CR, LF]"

text \<open>A character that forces the field around it to be quoted.\<close>

definition special :: "char \<Rightarrow> bool" where
  "special c \<longleftrightarrow> c = delimiter \<or> c = quotechar \<or> c \<in> set lineterminator"

text \<open>
  The field's characters as they are copied into the record, every quote character
  doubled, together with the flag telling whether the field has to be quoted.
\<close>

fun join_append_data :: "string \<Rightarrow> string \<times> bool" where
  "join_append_data [] = ([], False)"
| "join_append_data (c # cs) =
     (case join_append_data cs of
        (copied, quoted) \<Rightarrow>
          ((if c = quotechar then [quotechar, c] else [c]) @ copied, special c \<or> quoted))"

text \<open>One field as written; \<open>quoted\<close> is the caller's request to quote it in any case.\<close>

definition join_append :: "string \<Rightarrow> bool \<Rightarrow> string" where
  "join_append field quoted =
     (case join_append_data field of
        (copied, q) \<Rightarrow>
          if quoted \<or> q then [quotechar] @ copied @ [quotechar] else copied)"

text \<open>
  The record buffer and the number of fields joined so far: every field but the first
  is preceded by the delimiter.
\<close>

fun join_fields :: "string \<times> nat \<Rightarrow> string list \<Rightarrow> string \<times> nat" where
  "join_fields (rec, num_fields) [] = (rec, num_fields)"
| "join_fields (rec, num_fields) (field # rest) =
     join_fields
       (rec @ (if num_fields > 0 then [delimiter] else []) @ join_append field False,
        Suc num_fields) rest"

text \<open>
  \<open>writerow\<close>: a row whose only field is empty would leave the record empty, and is
  written as an empty quoted field instead; the line terminator ends every record.
\<close>

definition writerow :: "string list \<Rightarrow> string" where
  "writerow row =
     (case join_fields ([], 0) row of
        (rec, num_fields) \<Rightarrow>
          (if num_fields > 0 \<and> rec = [] then join_append [] True else rec) @ lineterminator)"

definition writerows :: "string list list \<Rightarrow> string" where
  "writerows rows = concat (map writerow rows)"

text \<open>
  Following the spec: a field that is quoted stands between two quote characters, with
  every quote character inside it doubled.
\<close>

definition quoted_form :: "string \<Rightarrow> string" where
  "quoted_form cell =
     [quotechar] @ concat (map (\<lambda>c. if c = quotechar then [quotechar, quotechar] else [c]) cell)
       @ [quotechar]"

subsection \<open>Parsing CSV text back\<close>

datatype parser_state =
  START_RECORD | START_FIELD | IN_FIELD | IN_QUOTED_FIELD | QUOTE_IN_QUOTED_FIELD | EAT_CRNL

record reader =
  state :: parser_state
  field :: string
  row :: "string list"
  records :: "string list list"

definition parse_add_char :: "reader \<Rightarrow> char \<Rightarrow> reader" where
  "parse_add_char r c = r\<lparr>field := field r @ [c]\<rparr>"

definition parse_save_field :: "reader \<Rightarrow> reader" where
  "parse_save_field r = r\<lparr>row := row r @ [field r], field := []\<rparr>"

text \<open>The end of a line outside a quoted field completes the record.\<close>

definition end_record :: "reader \<Rightarrow> reader" where
  "end_record r = r\<lparr>records := records r @ [row r], row := [], state := START_RECORD\<rparr>"

text \<open>The reader is not strict: it fails only on data after a bare carriage return.\<close>

definition start_field :: "reader \<Rightarrow> char \<Rightarrow> reader option" where
  "start_field r c =
     (if c = LF then Some (end_record (parse_save_field r))
      else if c = CR then Some ((parse_save_field r)\<lparr>state := EAT_CRNL\<rparr>)
      else if c = quotechar then Some (r\<lparr>state := IN_QUOTED_FIELD\<rparr>)
      else if c = delimiter then Some ((parse_save_field r)\<lparr>state := START_FIELD\<rparr>)
      else Some ((parse_add_char r c)\<lparr>state := IN_FIELD\<rparr>))"

definition parse_process_char :: "reader \<Rightarrow> char \<Rightarrow> reader option" where
  "parse_process_char r c =
     (case state r of
        START_RECORD \<Rightarrow>
          if c = LF then Some (end_record r)
          else if c = CR then Some (r\<lparr>state := EAT_CRNL\<rparr>)
          else start_field r c
      | START_FIELD \<Rightarrow> start_field r c
      | IN_FIELD \<Rightarrow>
          if c = LF then Some (end_record (parse_save_field r))
          else if c = CR then Some ((parse_save_field r)\<lparr>state := EAT_CRNL\<rparr>)
          else if c = delimiter then Some ((parse_save_field r)\<lparr>state := START_FIELD\<rparr>)
          else Some (parse_add_char r c)
      | IN_QUOTED_FIELD \<Rightarrow>
          if c = quotechar then Some (r\<lparr>state := QUOTE_IN_QUOTED_FIELD\<rparr>)
          else Some (parse_add_char r c)
      | QUOTE_IN_QUOTED_FIELD \<Rightarrow>
          if c = quotechar then Some ((parse_add_char r c)\<lparr>state := IN_QUOTED_FIELD\<rparr>)
          else if c = delimiter then Some ((parse_save_field r)\<lparr>state := START_FIELD\<rparr>)
          else if c = LF then Some (end_record (parse_save_field r))
          else if c = CR then Some ((parse_save_field r)\<lparr>state := EAT_CRNL\<rparr>)
          else Some ((parse_add_char r c)\<lparr>state := IN_FIELD\<rparr>)
      | EAT_CRNL \<Rightarrow>
          if c = LF then Some (end_record r)
          else if c = CR then Some r
          else None)"

fun parse_chars :: "reader \<Rightarrow> string \<Rightarrow> reader option" where
  "parse_chars r [] = Some r"
| "parse_chars r (c # cs) =
     (case parse_process_char r c of None \<Rightarrow> None | Some r' \<Rightarrow> parse_chars r' cs)"

text \<open>At the end of the text an unfinished record is completed.\<close>

definition parse_end :: "reader \<Rightarrow> string list list" where
  "parse_end r =
     (case state r of
        START_RECORD \<Rightarrow> records r
      | EAT_CRNL \<Rightarrow> records (end_record r)
      | _ \<Rightarrow> records (end_record (parse_save_field r)))"

definition csv_reader :: "string \<Rightarrow> string list list option" where
  "csv_reader text =
     (case parse_chars \<lparr>state = START_RECORD, field = [], row = [], records = []\<rparr> text of
        None \<Rightarrow> None
      | Some r \<Rightarrow> Some (parse_end r))"

text \<open>A reader at the start of a field that has read none of it yet.\<close>

definition fresh :: "reader \<Rightarrow> bool" where
  "fresh r \<longleftrightarrow> (state r = START_RECORD \<or> state r = START_FIELD) \<and> field r = []"

section \<open>Exceptions\<close>

text \<open>
  The exceptions the program tells apart: \<open>main\<close> has a handler for
  \<open>FileNotFoundError\<close> and one for \<open>Exception\<close> (lines 93 and 98), the chat loop one
  for \<open>KeyboardInterrupt\<close> and one for \<open>Exception\<close> (lines 125 and 128). Every
  exception carries the text that \<open>str(e)\<close> returns. \<open>Exception\<close> stands for any
  instance of the class \<open>Exception\<close> other than a \<open>FileNotFoundError\<close>,
  \<open>BaseException\<close> for any other exception outside the class \<open>Exception\<close> (such as
  \<open>SystemExit\<close>).
\<close>

datatype exn =
  KeyboardInterrupt
| FileNotFoundError string
| Exception string
| BaseException string

fun is_Exception :: "exn \<Rightarrow> bool" where
  "is_Exception KeyboardInterrupt = False"
| "is_Exception (FileNotFoundError m) = True"
| "is_Exception (Exception m) = True"
| "is_Exception (BaseException m) = False"

fun str :: "exn \<Rightarrow> string" where
  "str KeyboardInterrupt = []"
| "str (FileNotFoundError m) = m"
| "str (Exception m) = m"
| "str (BaseException m) = m"

section \<open>Credential loader\<close>

text \<open>
  The fields of the credential object that \<open>get_sheets_service\<close> reads. A refresh token
  is a string or \<open>None\<close>; the test at line 38 takes the empty string as absent too.
\<close>

record credentials =
  valid :: bool
  expired :: bool
  refresh_token :: "string option"

definition has_refresh_token :: "credentials \<Rightarrow> bool" where
  "has_refresh_token creds \<longleftrightarrow>
     (case refresh_token creds of None \<Rightarrow> False | Some t \<Rightarrow> t \<noteq> [])"

datatype 'a on_disk = Missing | Exists 'a

datatype service = Service credentials

text \<open>The decoded reply of the spreadsheet API: the table under the key \<open>values\<close>, if any.\<close>

datatype response = Response "string list list option"

text \<open>
  What the world outside the program answers during one run. Each field is the outcome
  of one library call, an exception (\<open>Inl\<close>) or a value (\<open>Inr\<close>):
  \<^item> \<open>token_json\<close>: whether \<open>token.json\<close> exists, and what
    \<open>Credentials.from_authorized_user_file\<close> makes of it (line 35);
  \<^item> \<open>creds_refresh\<close>: \<open>creds.refresh(Request())\<close>, the refreshed credential (line 39);
  \<^item> \<open>client_secrets\<close>: whether \<open>credentials.json\<close> exists, and whether the flow can be
    built from it (line 41);
  \<^item> \<open>run_local_server\<close>: the interactive consent flow (line 42);
  \<^item> \<open>token_write\<close>: an error on writing \<open>token.json\<close> (lines 45 and 46);
  \<^item> \<open>build_error\<close>: an error raised by \<open>build\<close> (line 48);
  \<^item> \<open>execute_result\<close>: the spreadsheet API call (line 55).
\<close>

record environment =
  token_json :: "(exn + credentials) on_disk"
  creds_refresh :: "exn + credentials"
  client_secrets :: "(exn + unit) on_disk"
  run_local_server :: "exn + credentials"
  token_write :: "exn option"
  build_error :: "exn option"
  execute_result :: "exn + response"

text \<open>
  Modelled from the spec: \<open>InstalledAppFlow.from_client_secrets_file\<close> belongs to the
  OAuth client library, which is not part of the sources. It opens the client-secret
  descriptor and "fails with ConfigurationError when no client-secret descriptor is
  present": the \<open>open\<close> inside it raises \<open>FileNotFoundError\<close>, the exception that
  \<open>main\<close> reports as "credentials.json not found" (lines 93 and 94).
\<close>

definition no_such_file :: string where
  "no_such_file = ''[Errno 2] No such file or directory: credentials.json''"

definition from_client_secrets_file :: "environment \<Rightarrow> exn + unit" where
  "from_client_secrets_file env =
     (case client_secrets env of
        Missing \<Rightarrow> Inl (FileNotFoundError no_such_file)
      | Exists outcome \<Rightarrow> outcome)"

definition build :: "environment \<Rightarrow> credentials \<Rightarrow> exn + service" where
  "build env creds = (case build_error env of Some e \<Rightarrow> Inl e | None \<Rightarrow> Inr (Service creds))"

text \<open>Lines 33 to 35: the cached credential, \<open>None\<close> when there is no \<open>token.json\<close>.\<close>

definition load_cached :: "environment \<Rightarrow> exn + credentials option" where
  "load_cached env =
     (case token_json env of
        Missing \<Rightarrow> Inr None
      | Exists (Inl e) \<Rightarrow> Inl e
      | Exists (Inr creds) \<Rightarrow> Inr (Some creds))"

text \<open>Line 38: \<open>creds and creds.expired and creds.refresh_token\<close>.\<close>

fun refreshable :: "credentials option \<Rightarrow> bool" where
  "refreshable None = False"
| "refreshable (Some creds) = (expired creds \<and> has_refresh_token creds)"

text \<open>Lines 38 to 42: refresh the cached credential, or else run the consent flow.\<close>

definition renew :: "environment \<Rightarrow> credentials option \<Rightarrow> exn + credentials" where
  "renew env cached =
     (if refreshable cached then creds_refresh env
      else (case from_client_secrets_file env of
              Inl e \<Rightarrow> Inl e
            | Inr flow \<Rightarrow> run_local_server env))"

text \<open>Lines 38 to 46: the renewed credential is saved to \<open>token.json\<close>.\<close>

definition renew_and_save :: "environment \<Rightarrow> credentials option \<Rightarrow> credentials option \<times> (exn + service)" where
  "renew_and_save env cached =
     (case renew env cached of
        Inl e \<Rightarrow> (None, Inl e)
      | Inr creds \<Rightarrow>
          (case token_write env of
             Some e \<Rightarrow> (None, Inl e)
           | None \<Rightarrow> (Some creds, build env creds)))"

text \<open>
  \<open>get_sheets_service\<close> returns the credential it saved to \<open>token.json\<close>, if it saved
  one, and the service or the exception that ended it. Line 37 renews the credential when
  there is none cached or the cached one is not valid.
\<close>

definition get_sheets_service :: "environment \<Rightarrow> credentials option \<times> (exn + service)" where
  "get_sheets_service env =
     (case load_cached env of
        Inl e \<Rightarrow> (None, Inl e)
      | Inr None \<Rightarrow> renew_and_save env None
      | Inr (Some creds) \<Rightarrow>
          if \<not> valid creds then renew_and_save env (Some creds)
          else (None, build env creds))"

section \<open>Roster fetcher\<close>

text \<open>The calls \<open>fetch_roster_context\<close> makes, in the order it makes them.\<close>

datatype call = Call_get_sheets_service | Call_execute | Call_writerows

definition placeholder :: string where
  "placeholder = ''No data found in spreadsheet.''"

text \<open>Line 56: \<open>result.get('values', [])\<close>.\<close>

fun get_values :: "response \<Rightarrow> string list list" where
  "get_values (Response None) = []"
| "get_values (Response (Some table)) = table"

definition fetch_roster_context :: "environment \<Rightarrow> call list \<times> (exn + string)" where
  "fetch_roster_context env =
     (case snd (get_sheets_service env) of
        Inl e \<Rightarrow> ([Call_get_sheets_service], Inl e)
      | Inr service \<Rightarrow>
          (case execute_result env of
             Inl e \<Rightarrow> ([Call_get_sheets_service, Call_execute], Inl e)
           | Inr result \<Rightarrow>
               let values = get_values result in
               if values = [] then ([Call_get_sheets_service, Call_execute], Inr placeholder)
               else ([Call_get_sheets_service, Call_execute, Call_writerows],
                     Inr (writerows values))))"

section \<open>Prompt builder\<close>

text \<open>
  The formatted string literal of lines 70 to 84 is a sequence of literal pieces and
  replacement fields; its value is the concatenation of the pieces, each replacement field
  giving the text of \<open>roster_csv\<close>.
\<close>

datatype piece = Literal string | Replacement

fun format_pieces :: "piece list \<Rightarrow> string \<Rightarrow> string" where
  "format_pieces [] roster_csv = []"
| "format_pieces (Literal text # rest) roster_csv = text @ format_pieces rest roster_csv"
| "format_pieces (Replacement # rest) roster_csv = roster_csv @ format_pieces rest roster_csv"

definition unlines :: "string list \<Rightarrow> string" where
  "unlines ls = concat (map (\<lambda>l. l @ [LF]) ls)"

definition prompt_head :: string where
  "prompt_head = unlines
     [''You are Majel, the Fleet Intelligence System for Admiral Guff.'',
      [],
      ''DATA SOURCE:'',
      ''You have access to a specific dataset of Star Trek Fleet Command officers provided below in CSV format.'',
      [],
      ''RULES:'',
      ''1. TRUTH: Use ONLY the provided CSV data to answer questions about officers.'',
      ''2. UNKNOWN: If the answer is not in the CSV, state '' @ [quotechar]
        @ ''Data not available in current roster.'' @ [quotechar]
        @ '' Do not guess based on external Star Trek lore.'',
      ''3. CITATION: When providing stats or details, cite the spreadsheet Row Number (if available) or the specific Officer Name to verify the source.'',
      ''4. DETERMINISM: Be concise and factual. No fluff.'',
      [],
      ''--- BEGIN ROSTER DATA ---'']"

definition prompt_tail :: string where
  "prompt_tail = [LF] @ unlines [''--- END ROSTER DATA ---'']"

definition build_system_prompt :: "string \<Rightarrow> string" where
  "build_system_prompt roster_csv =
     format_pieces [Literal prompt_head, Replacement, Literal prompt_tail] roster_csv"

section \<open>Chat loop\<close>

subsection \<open>Trimming and lower case\<close>

text \<open>
  \<open>str.strip\<close> removes the leading and the trailing whitespace, \<open>str.lower\<close> maps every
  character to lower case. Below 256 the whitespace characters are the code points 9 to
  13, 28 to 32, 133 and 160, and the upper-case letters are 65 to 90 and 192 to 222
  without 215, each 32 below its lower-case letter.
\<close>

definition isspace :: "char \<Rightarrow> bool" where
  "isspace c \<longleftrightarrow>
     (let n = (of_char c :: nat)
      in (9 \<le> n \<and> n \<le> 13) \<or> (28 \<le> n \<and> n \<le> 32) \<or> n = 133 \<or> n = 160)"

definition lstrip :: "string \<Rightarrow> string" where
  "lstrip s = dropWhile isspace s"

definition rstrip :: "string \<Rightarrow> string" where
  "rstrip s = rev (dropWhile isspace (rev s))"

definition strip :: "string \<Rightarrow> string" where
  "strip s = rstrip (lstrip s)"

definition lower_char :: "char \<Rightarrow> char" where
  "lower_char c =
     (let n = (of_char c :: nat)
      in if (65 \<le> n \<and> n \<le> 90) \<or> (192 \<le> n \<and> n \<le> 222 \<and> n \<noteq> 215)
         then char_of (n + 32) else c)"

definition lower :: "string \<Rightarrow> string" where
  "lower s = map lower_char s"

text \<open>A message that is not empty and neither begins nor ends with whitespace.\<close>

definition trimmed :: "string \<Rightarrow> bool" where
  "trimmed m \<longleftrightarrow> m \<noteq> [] \<and> \<not> isspace (hd m) \<and> \<not> isspace (last m)"

subsection \<open>The session and the terminal\<close>

datatype role = User | Model

text \<open>
  What the program writes to the terminal. Each constructor is one \<open>print\<close> (or the prompt
  of \<open>input\<close>) of the source, with the text it interpolates:
  \<^item> \<open>Initializing\<close>: line 88; \<open>RosterLoaded n\<close>: line 92, with the length of the CSV text;
  \<^item> \<open>CredentialsNotFound\<close>, \<open>DownloadHint\<close>, \<open>PlaceHint\<close>: lines 94 to 96;
  \<^item> \<open>FetchFailed m\<close>: line 99, "Failed to fetch roster: m";
  \<^item> \<open>Online\<close>: line 111; \<open>Prompt\<close>: "Admiral > ", line 115;
  \<^item> \<open>Farewell\<close>: line 119, "Majel offline. Live long and prosper.";
  \<^item> \<open>InterruptFarewell\<close>: line 126, the same farewell after two line feeds;
  \<^item> \<open>MajelSays text\<close>: line 123; \<open>ErrorReport m\<close>: line 129, "Error: m".
\<close>

datatype printed =
  Initializing
| RosterLoaded nat
| CredentialsNotFound
| DownloadHint
| PlaceHint
| FetchFailed string
| Online
| Prompt
| Farewell
| InterruptFarewell
| MajelSays string
| ErrorReport string

text \<open>
  The state the loop works on: the chat session, which is the system instruction the
  model was constructed with, the conversation history and the messages handed to
  \<open>chat.send_message\<close> (one for every call of the remote chat endpoint), and what
  has been written to the terminal.
\<close>

record loop_state =
  system_instruction :: string
  history :: "(role \<times> string) list"
  requests :: "string list"
  stdout :: "printed list"

definition print :: "printed \<Rightarrow> loop_state \<Rightarrow> loop_state" where
  "print p s = s\<lparr>stdout := stdout s @ [p]\<rparr>"

text \<open>
  An exception raised inside the \<open>try\<close> body of the loop (lines 115 to 123), and
  whether a keyboard interrupt arrives while the handler of that exception is printing.
  The handlers (lines 126 and 129) run outside the \<open>try\<close> body, so no handler takes an
  interrupt that arrives there.
\<close>

record raised =
  exc :: exn
  handler_interrupted :: bool

text \<open>
  How a message that is sent can fail: \<open>In_send\<close>, \<open>chat.send_message\<close> raises (line
  122); \<open>After_send content\<close>, the call has returned a response, which the session has
  recorded with this content, and line 123 raises while it reads \<open>response.text\<close> or
  prints it.
\<close>

datatype failure = In_send raised | After_send string raised

text \<open>
  One pass through the loop body meets the environment twice: \<open>typed\<close> is the outcome of
  \<open>input\<close> (the line read, or the exception raised while waiting), \<open>reply\<close> the outcome
  of the remote call, used only if the pass sends a message (the text of the response,
  read and printed, or the failure).
\<close>

record turn =
  typed :: "raised + string"
  reply :: "failure + string"

text \<open>
  Modelled from the spec: \<open>chat.send_message\<close> belongs to the client library of the
  model-serving API, which is not part of the sources. It sends the message to the
  remote chat endpoint and, when the call returns a response, appends "both turns to
  history implicitly (handled by the remote session)"; when it raises, the history is as
  before. \<open>answer\<close> is the content of the response, \<open>None\<close> when the call raises.
\<close>

definition send_message :: "loop_state \<Rightarrow> string \<Rightarrow> string option \<Rightarrow> loop_state" where
  "send_message s message answer =
     (let s' = s\<lparr>requests := requests s @ [message]\<rparr>
      in case answer of
           None \<Rightarrow> s'
         | Some content \<Rightarrow> s'\<lparr>history := history s' @ [(User, message), (Model, content)]\<rparr>)"

datatype control = Continue | Break | Raise exn

text \<open>
  The handlers of lines 125 to 129; any other exception leaves the loop unhandled. An
  interrupt that arrives as a handler starts to print leaves the loop too, with nothing
  printed by the handler.
\<close>

definition handle :: "raised \<Rightarrow> loop_state \<Rightarrow> control \<times> loop_state" where
  "handle r s =
     (if exc r = KeyboardInterrupt then
        (if handler_interrupted r then (Raise KeyboardInterrupt, s)
         else (Break, print InterruptFarewell s))
      else if is_Exception (exc r) then
        (if handler_interrupted r then (Raise KeyboardInterrupt, s)
         else (Continue, print (ErrorReport (str (exc r))) s))
      else (Raise (exc r), s))"

definition exit_words :: "string list" where
  "exit_words = [''exit'', ''quit'', ''q'']"

text \<open>
  The loop body, lines 114 to 129. A keyboard interrupt is an exception raised where the
  pass is when the signal arrives: in \<open>input\<close>, in the send, at line 123, or in a
  handler. The farewell of line 119 is printed in one step.
\<close>

definition iteration :: "loop_state \<Rightarrow> turn \<Rightarrow> control \<times> loop_state" where
  "iteration s t =
     (let s1 = print Prompt s in
      case typed t of
        Inl r \<Rightarrow> handle r s1
      | Inr line \<Rightarrow>
          let user_input = strip line in
          if user_input = [] then (Continue, s1)
          else if lower user_input \<in> set exit_words then (Break, print Farewell s1)
          else (case reply t of
                  Inl (In_send r) \<Rightarrow> handle r (send_message s1 user_input None)
                | Inl (After_send content r) \<Rightarrow>
                    handle r (send_message s1 user_input (Some content))
                | Inr text \<Rightarrow>
                    (Continue, print (MajelSays text) (send_message s1 user_input (Some text)))))"

text \<open>
  The states of the loop after the turns the environment has supplied: waiting for the
  next line, offline, or left by an exception no handler took.
\<close>

datatype loop_end = AWAITING_INPUT | OFFLINE | UNHANDLED exn

fun chat_loop :: "loop_state \<Rightarrow> turn list \<Rightarrow> loop_end \<times> loop_state" where
  "chat_loop s [] = (AWAITING_INPUT, s)"
| "chat_loop s (t # ts) =
     (case iteration s t of
        (Continue, s') \<Rightarrow> chat_loop s' ts
      | (Break, s') \<Rightarrow> (OFFLINE, s')
      | (Raise e, s') \<Rightarrow> (UNHANDLED e, s'))"

subsection \<open>The program\<close>

text \<open>
  How a run ends: \<open>main\<close> returns (the process exits with the success code), an exception
  leaves \<open>main\<close>, or the program is still waiting for input.
\<close>

datatype ending = Returned | Uncaught exn | Waiting

definition init :: "string \<Rightarrow> printed list \<Rightarrow> loop_state" where
  "init roster_csv out =
     \<lparr>system_instruction = build_system_prompt roster_csv, history = [], requests = [],
      stdout = out\<rparr>"

definition main :: "environment \<Rightarrow> turn list \<Rightarrow> ending \<times> printed list" where
  "main env turns =
     (case snd (fetch_roster_context env) of
        Inl (FileNotFoundError m) \<Rightarrow>
          (Returned, [Initializing, CredentialsNotFound, DownloadHint, PlaceHint])
      | Inl e \<Rightarrow>
          if is_Exception e then (Returned, [Initializing, FetchFailed (str e)])
          else (Uncaught e, [Initializing])
      | Inr roster_csv \<Rightarrow>
          (case chat_loop
                  (init roster_csv [Initializing, RosterLoaded (length roster_csv), Online])
                  turns of
             (AWAITING_INPUT, s) \<Rightarrow> (Waiting, stdout s)
           | (OFFLINE, s) \<Rightarrow> (Returned, stdout s)
           | (UNHANDLED e, s) \<Rightarrow> (Uncaught e, stdout s)))"

subsection \<open>A sample run\<close>

text \<open>
  An environment in which a valid credential is cached and the spreadsheet is empty, and
  the state of a session that has just started. Concrete runs below start from them.
\<close>

definition env0 :: environment where
  "env0 = \<lparr>token_json = Exists (Inr \<lparr>valid = True, expired = False, refresh_token = None\<rparr>),
     creds_refresh = Inl (Exception ''unused''), client_secrets = Missing,
     run_local_server = Inl (Exception ''unused''), token_write = None, build_error = None,
     execute_result = Inr (Response None)\<rparr>"

definition s0 :: loop_state where
  "s0 = \<lparr>system_instruction = [], history = [], requests = [], stdout = []\<rparr>"

section \<open>Properties of the CSV serialization\<close>

lemma parse_chars_append:
  "parse_chars r (xs @ ys) =
     (case parse_chars r xs of None \<Rightarrow> None | Some r' \<Rightarrow> parse_chars r' ys)"
  by (induction xs arbitrary: r) (auto split: option.splits)

lemma join_append_data_quoted:
  "snd (join_append_data s) \<longleftrightarrow> (\<exists>c\<in>set s. special c)"
  by (induction s) (auto split: prod.splits)

lemma join_append_data_plain:
  "\<forall>c\<in>set s. \<not> special c \<Longrightarrow> fst (join_append_data s) = s"
  by (induction s) (auto split: prod.splits simp: special_def)

lemma parse_quoted_data:
  "state r = IN_QUOTED_FIELD \<Longrightarrow>
     parse_chars r (fst (join_append_data s)) = Some (r\<lparr>field := field r @ s\<rparr>)"
proof (induction s arbitrary: r)
  case Nil
  then show ?case by simp
next
  case (Cons c s)
  obtain copied q where d: "join_append_data s = (copied, q)"
    by (cases "join_append_data s")
  let ?r' = "r\<lparr>field := field r @ [c]\<rparr>"
  have st: "state ?r' = IN_QUOTED_FIELD" using Cons.prems by simp
  have step: "parse_chars r ((if c = quotechar then [quotechar, c] else [c]) @ copied)
      = parse_chars ?r' copied"
    using Cons.prems by (cases r) (simp add: parse_process_char_def parse_add_char_def)
  show ?case using Cons.IH [OF st] step d by simp
qed

lemma parse_plain_data:
  "state r = IN_FIELD \<Longrightarrow> \<forall>c\<in>set s. \<not> special c \<Longrightarrow>
     parse_chars r s = Some (r\<lparr>field := field r @ s\<rparr>)"
proof (induction s arbitrary: r)
  case Nil
  then show ?case by simp
next
  case (Cons c s)
  let ?r' = "r\<lparr>field := field r @ [c]\<rparr>"
  have st: "state ?r' = IN_FIELD" using Cons.prems by simp
  have c: "c \<noteq> LF" "c \<noteq> CR" "c \<noteq> delimiter"
    using Cons.prems(2) by (auto simp: special_def lineterminator_def)
  have "parse_process_char r c = Some ?r'"
    using Cons.prems(1) c by (simp add: parse_process_char_def parse_add_char_def)
  then show ?case using Cons.IH [OF st] Cons.prems(2) by simp
qed

lemma special_cases:
  "special c \<longleftrightarrow> c = delimiter \<or> c = quotechar \<or> c = CR \<or> c = LF"
  by (auto simp: special_def lineterminator_def)

lemma chars_distinct:
  "CR \<noteq> LF" "CR \<noteq> delimiter" "CR \<noteq> quotechar" "LF \<noteq> delimiter" "LF \<noteq> quotechar"
  "delimiter \<noteq> quotechar"
  by (simp_all add: CR_def LF_def delimiter_def quotechar_def)

text \<open>The reader after a written field, quoted or plain.\<close>

lemma parse_field_quoted:
  assumes "fresh r" "q \<or> (\<exists>c\<in>set f. special c)"
  shows "parse_chars r (join_append f q) = Some (r\<lparr>state := QUOTE_IN_QUOTED_FIELD, field := f\<rparr>)"
proof -
  obtain copied q' where d: "join_append_data f = (copied, q')"
    by (cases "join_append_data f")
  have q': "q' \<longleftrightarrow> (\<exists>c\<in>set f. special c)"
    using join_append_data_quoted [of f] d by simp
  have ja: "join_append f q = [quotechar] @ fst (join_append_data f) @ [quotechar]"
    using assms(2) d q' by (simp add: join_append_def)
  let ?r1 = "r\<lparr>state := IN_QUOTED_FIELD\<rparr>"
  have s1: "parse_process_char r quotechar = Some ?r1"
    using assms(1) chars_distinct
    by (auto simp: fresh_def parse_process_char_def start_field_def)
  have s2: "parse_chars ?r1 (fst (join_append_data f)) = Some (?r1\<lparr>field := field ?r1 @ f\<rparr>)"
    by (rule parse_quoted_data) simp
  have s3: "parse_process_char (?r1\<lparr>field := field ?r1 @ f\<rparr>) quotechar
      = Some (r\<lparr>state := QUOTE_IN_QUOTED_FIELD, field := f\<rparr>)"
    using assms(1) by (simp add: fresh_def parse_process_char_def)
  show ?thesis
    unfolding ja using s1 s2 s3 by (simp add: parse_chars_append)
qed

lemma parse_field_plain:
  assumes "fresh r" "\<forall>c\<in>set f. \<not> special c" "f \<noteq> []"
  shows "parse_chars r (join_append f False) = Some (r\<lparr>state := IN_FIELD, field := f\<rparr>)"
proof -
  obtain c cs where f: "f = c # cs" using assms(3) by (cases f) auto
  obtain copied q' where d: "join_append_data f = (copied, q')"
    by (cases "join_append_data f")
  have ja: "join_append f False = f"
    using join_append_data_plain [OF assms(2)] join_append_data_quoted [of f] assms(2) d
    by (simp add: join_append_def)
  have c: "c \<noteq> LF" "c \<noteq> CR" "c \<noteq> delimiter" "c \<noteq> quotechar"
    using assms(2) f by (auto simp: special_cases)
  let ?r1 = "r\<lparr>state := IN_FIELD, field := [c]\<rparr>"
  have s1: "parse_process_char r c = Some ?r1"
    using assms(1) c
    by (auto simp: fresh_def parse_process_char_def start_field_def parse_add_char_def)
  have s2: "parse_chars ?r1 cs = Some (?r1\<lparr>field := field ?r1 @ cs\<rparr>)"
    by (rule parse_plain_data) (use assms(2) f in auto)
  show ?thesis unfolding ja using s1 s2 f by simp
qed

lemma join_append_empty: "join_append [] False = []"
  by (simp add: join_append_def)

lemma parse_field_delimiter:
  assumes "fresh r"
  shows "parse_chars r (join_append f False @ [delimiter])
     = Some (r\<lparr>state := START_FIELD, row := row r @ [f]\<rparr>)"
proof (cases "\<exists>c\<in>set f. special c")
  case True
  have "parse_process_char (r\<lparr>state := QUOTE_IN_QUOTED_FIELD, field := f\<rparr>) delimiter
      = Some (r\<lparr>state := START_FIELD, row := row r @ [f]\<rparr>)"
    using assms chars_distinct
    by (simp add: fresh_def parse_process_char_def parse_save_field_def)
  then show ?thesis
    using parse_field_quoted [OF assms, of False f] True by (simp add: parse_chars_append)
next
  case False
  show ?thesis
  proof (cases "f = []")
    case True
    have "parse_process_char r delimiter = Some (r\<lparr>state := START_FIELD, row := row r @ [f]\<rparr>)"
      using assms chars_distinct True
      by (auto simp: fresh_def parse_process_char_def start_field_def parse_save_field_def)
    then show ?thesis using True by (simp add: join_append_empty)
  next
    case nonempty: False
    have "parse_process_char (r\<lparr>state := IN_FIELD, field := f\<rparr>) delimiter
        = Some (r\<lparr>state := START_FIELD, row := row r @ [f]\<rparr>)"
      using assms chars_distinct
      by (simp add: fresh_def parse_process_char_def parse_save_field_def)
    then show ?thesis
      using parse_field_plain [OF assms _ nonempty] False by (simp add: parse_chars_append)
  qed
qed

lemma parse_field_terminator:
  assumes "fresh r" "q \<longrightarrow> f = []" "state r = START_FIELD \<or> f \<noteq> [] \<or> q"
  shows "parse_chars r (join_append f q @ lineterminator)
     = Some (r\<lparr>state := START_RECORD, row := [], records := records r @ [row r @ [f]]\<rparr>)"
proof -
  let ?goal = "r\<lparr>state := START_RECORD, row := [], records := records r @ [row r @ [f]]\<rparr>"
  have after: "parse_chars (r\<lparr>state := st, field := f\<rparr>) lineterminator = Some ?goal"
    if "st = QUOTE_IN_QUOTED_FIELD \<or> st = IN_FIELD \<or> (st = START_FIELD \<and> f = [])" for st
    using that assms(1) chars_distinct
    by (auto simp: fresh_def lineterminator_def parse_process_char_def parse_save_field_def
          start_field_def end_record_def)
  show ?thesis
  proof (cases "q \<or> (\<exists>c\<in>set f. special c)")
    case True
    then show ?thesis
      using parse_field_quoted [OF assms(1) True] after [of QUOTE_IN_QUOTED_FIELD]
      by (simp add: parse_chars_append)
  next
    case False
    show ?thesis
    proof (cases "f = []")
      case True
      then have st: "state r = START_FIELD" using assms(3) False by simp
      have "r\<lparr>state := START_FIELD, field := f\<rparr> = r"
        using st assms(1) True by (simp add: fresh_def)
      then show ?thesis
        using after [of START_FIELD] True False by (simp add: join_append_empty)
    next
      case nonempty: False
      have q: "q = False" using False by simp
      show ?thesis
        using parse_field_plain [OF assms(1) _ nonempty] False after [of IN_FIELD]
        by (simp add: parse_chars_append q)
    qed
  qed
qed

lemma join_fields_rest:
  "n > 0 \<Longrightarrow> join_fields (rec, n) fs
     = (rec @ concat (map (\<lambda>g. delimiter # join_append g False) fs), n + length fs)"
  by (induction fs arbitrary: rec n) simp_all

lemma join_fields_first:
  "join_fields ([], 0) (f # fs)
     = (join_append f False @ concat (map (\<lambda>g. delimiter # join_append g False) fs),
        Suc (length fs))"
  by (simp add: join_fields_rest)

lemma join_append_nonempty: "f \<noteq> [] \<Longrightarrow> join_append f q \<noteq> []"
  by (cases f) (auto simp: join_append_def split: prod.splits)

lemma writerow_Nil: "writerow [] = lineterminator"
  by (simp add: writerow_def)

lemma writerow_single_empty: "writerow [[]] = join_append [] True @ lineterminator"
  by (simp add: writerow_def join_append_empty)

lemma writerow_Cons:
  "fs \<noteq> [] \<or> f \<noteq> [] \<Longrightarrow>
   writerow (f # fs)
     = join_append f False @ concat (map (\<lambda>g. delimiter # join_append g False) fs)
       @ lineterminator"
proof -
  assume a: "fs \<noteq> [] \<or> f \<noteq> []"
  have "join_append f False @ concat (map (\<lambda>g. delimiter # join_append g False) fs) \<noteq> []"
    using a join_append_nonempty [of f False] by (cases fs) auto
  then show ?thesis
    by (auto simp add: writerow_def join_fields_first simp del: join_fields.simps)
qed

lemma parse_fields:
  assumes "fresh r" "fs \<noteq> [] \<or> f \<noteq> [] \<or> state r = START_FIELD"
  shows "parse_chars r
       (join_append f False @ concat (map (\<lambda>g. delimiter # join_append g False) fs)
          @ lineterminator)
     = Some (r\<lparr>state := START_RECORD, row := [], records := records r @ [row r @ f # fs]\<rparr>)"
  using assms
proof (induction fs arbitrary: f r)
  case Nil
  have "parse_chars r (join_append f False @ lineterminator)
      = Some (r\<lparr>state := START_RECORD, row := [], records := records r @ [row r @ [f]]\<rparr>)"
    by (rule parse_field_terminator) (use Nil in auto)
  then show ?case by simp
next
  case (Cons g fs)
  let ?r1 = "r\<lparr>state := START_FIELD, row := row r @ [f]\<rparr>"
  have fr: "fresh ?r1" using Cons.prems(1) by (simp add: fresh_def)
  have ih: "parse_chars ?r1
       (join_append g False @ concat (map (\<lambda>g. delimiter # join_append g False) fs)
          @ lineterminator)
     = Some (?r1\<lparr>state := START_RECORD, row := [],
          records := records ?r1 @ [row ?r1 @ g # fs]\<rparr>)"
    by (rule Cons.IH [OF fr]) simp
  have "parse_chars r ((join_append f False @ [delimiter]) @
       (join_append g False @ concat (map (\<lambda>g. delimiter # join_append g False) fs)
          @ lineterminator))
     = Some (r\<lparr>state := START_RECORD, row := [], records := records r @ [row r @ f # g # fs]\<rparr>)"
    unfolding parse_chars_append [of r "join_append f False @ [delimiter]"]
    using parse_field_delimiter [OF Cons.prems(1), of f] ih
    by simp
  then show ?case by simp
qed

lemma parse_writerow:
  assumes "state r = START_RECORD" "field r = []" "row r = []"
  shows "parse_chars r (writerow fs) = Some (r\<lparr>records := records r @ [fs]\<rparr>)"
proof -
  have fr: "fresh r" using assms by (simp add: fresh_def)
  have same: "r\<lparr>state := START_RECORD, row := [], records := x\<rparr> = r\<lparr>records := x\<rparr>" for x
    using assms by (cases r) simp
  show ?thesis
  proof (cases fs)
    case Nil
    then show ?thesis
      using assms chars_distinct
      by (cases r)
        (simp add: writerow_Nil lineterminator_def parse_process_char_def end_record_def)
  next
    case (Cons f rest)
    show ?thesis
    proof (cases "rest \<noteq> [] \<or> f \<noteq> []")
      case True
      then show ?thesis
        using parse_fields [OF fr, of rest f] writerow_Cons [of rest f] Cons assms same
        by simp
    next
      case False
      then have fs: "fs = [[]]" using Cons by simp
      show ?thesis
        using parse_field_terminator [OF fr, of True "[]"] assms same
        by (simp add: fs writerow_single_empty)
    qed
  qed
qed

lemma parse_writerows:
  assumes "state r = START_RECORD" "field r = []" "row r = []"
  shows "parse_chars r (writerows rows) = Some (r\<lparr>records := records r @ rows\<rparr>)"
  using assms
proof (induction rows arbitrary: r)
  case Nil
  then show ?case by (simp add: writerows_def)
next
  case (Cons fs rows)
  let ?r1 = "r\<lparr>records := records r @ [fs]\<rparr>"
  have "parse_chars ?r1 (writerows rows) = Some (?r1\<lparr>records := records ?r1 @ rows\<rparr>)"
    by (rule Cons.IH) (use Cons.prems in simp_all)
  then show ?case
    using parse_writerow [OF Cons.prems, of fs]
    by (simp add: writerows_def parse_chars_append)
qed

lemma csv_roundtrip: "csv_reader (writerows rows) = Some rows"
  using parse_writerows [of "\<lparr>state = START_RECORD, field = [], row = [], records = []\<rparr>" rows]
  by (simp add: csv_reader_def parse_end_def)

lemma join_append_data_copied:
  "fst (join_append_data s)
     = concat (map (\<lambda>c. if c = quotechar then [quotechar, quotechar] else [c]) s)"
  by (induction s) (auto split: prod.splits)

lemma join_append_form:
  "join_append cell False
     = (if delimiter \<in> set cell \<or> quotechar \<in> set cell \<or> CR \<in> set cell \<or> LF \<in> set cell
        then quoted_form cell else cell)"
proof -
  obtain copied q where d: "join_append_data cell = (copied, q)"
    by (cases "join_append_data cell")
  have q: "q \<longleftrightarrow> (\<exists>c\<in>set cell. special c)"
    using join_append_data_quoted [of cell] d by simp
  have sp: "(\<exists>c\<in>set cell. special c)
      \<longleftrightarrow> delimiter \<in> set cell \<or> quotechar \<in> set cell \<or> CR \<in> set cell \<or> LF \<in> set cell"
    by (auto simp: special_cases)
  show ?thesis
  proof (cases q)
    case True
    then show ?thesis
      using d q sp join_append_data_copied [of cell]
      by (simp add: join_append_def quoted_form_def)
  next
    case False
    then have "\<forall>c\<in>set cell. \<not> special c" using q by simp
    then show ?thesis
      using d False q sp join_append_data_plain [of cell]
      by (simp add: join_append_def)
  qed
qed

lemma fetch_rows:
  assumes "snd (get_sheets_service env) = Inr svc" "execute_result env = Inr (Response tab)"
  shows "fetch_roster_context env
     = (if get_values (Response tab) = []
        then ([Call_get_sheets_service, Call_execute], Inr placeholder)
        else ([Call_get_sheets_service, Call_execute, Call_writerows],
              Inr (writerows (get_values (Response tab)))))"
  using assms by (simp add: fetch_roster_context_def Let_def)

text \<open>
  Claim C1. When the spreadsheet call returns a table with at least one row, the roster
  fetcher returns the table as the CSV writer writes it, and parsing that text gives back
  exactly the rows of the table. Every cell is written unchanged unless it contains the
  delimiter, a quote character or a line break; then it is written between quotes, with
  its own quotes doubled.
\<close>

theorem csv_round_trip:
  assumes "rows \<noteq> []"
    and "snd (get_sheets_service env) = Inr svc"
    and "execute_result env = Inr (Response (Some rows))"
  shows "snd (fetch_roster_context env) = Inr (writerows rows)
       \<and> csv_reader (writerows rows) = Some rows
       \<and> (\<forall>row\<in>set rows. \<forall>cell\<in>set row.
            join_append cell False
              = (if delimiter \<in> set cell \<or> quotechar \<in> set cell
                    \<or> CR \<in> set cell \<or> LF \<in> set cell
                 then quoted_form cell else cell))"
  using assms fetch_rows [OF assms(2,3)] csv_roundtrip [of rows] join_append_form
  by simp

theorem csv_round_trip_witness:
  "csv_reader (writerows [[''a,b'', [quotechar, CHR ''c'']], [''d'', []]])
     = Some [[''a,b'', [quotechar, CHR ''c'']], [''d'', []]]
   \<and> join_append ''a,b'' False = quoted_form ''a,b''
   \<and> snd (fetch_roster_context
        (env0\<lparr>execute_result :=
            Inr (Response (Some [[''a,b'', [quotechar, CHR ''c'']], [''d'', []]]))\<rparr>))
       = Inr (writerows [[''a,b'', [quotechar, CHR ''c'']], [''d'', []]])"
proof -
  let ?rows = "[[''a,b'', [quotechar, CHR ''c'']], [''d'', []]]"
  let ?env = "env0\<lparr>execute_result := Inr (Response (Some ?rows))\<rparr>"
  have h1: "?rows \<noteq> []" by simp
  have h2: "snd (get_sheets_service ?env)
      = Inr (Service \<lparr>valid = True, expired = False, refresh_token = None\<rparr>)"
    by (simp add: env0_def get_sheets_service_def load_cached_def build_def)
  have h3: "execute_result ?env = Inr (Response (Some ?rows))" by simp
  show ?thesis
    using csv_round_trip [OF h1 h2 h3] by (simp add: delimiter_def)
qed

section \<open>Properties of the roster fetcher\<close>

text \<open>
  Claim C4. When the spreadsheet call succeeds with no rows (the reply has no table or
  an empty one), the fetcher returns the placeholder text, not an exception, and it has
  not called the CSV writer.
\<close>

theorem empty_result_gives_placeholder:
  assumes "snd (get_sheets_service env) = Inr svc"
    and "execute_result env = Inr (Response None) \<or> execute_result env = Inr (Response (Some []))"
  shows "fetch_roster_context env
           = ([Call_get_sheets_service, Call_execute], Inr ''No data found in spreadsheet.'')
       \<and> Call_writerows \<notin> set (fst (fetch_roster_context env))"
  using assms by (auto simp: fetch_roster_context_def Let_def placeholder_def)

theorem empty_result_gives_placeholder_witness:
  "fetch_roster_context env0
     = ([Call_get_sheets_service, Call_execute], Inr ''No data found in spreadsheet.'')
   \<and> fetch_roster_context (env0\<lparr>execute_result := Inr (Response (Some []))\<rparr>)
     = ([Call_get_sheets_service, Call_execute], Inr ''No data found in spreadsheet.'')"
proof -
  let ?svc = "Service \<lparr>valid = True, expired = False, refresh_token = None\<rparr>"
  let ?env = "env0\<lparr>execute_result := Inr (Response (Some []))\<rparr>"
  have a: "snd (get_sheets_service env0) = Inr ?svc"
    by (simp add: env0_def get_sheets_service_def load_cached_def build_def)
  have b: "execute_result env0 = Inr (Response None)
      \<or> execute_result env0 = Inr (Response (Some []))"
    by (simp add: env0_def)
  have a': "snd (get_sheets_service ?env) = Inr ?svc"
    by (simp add: env0_def get_sheets_service_def load_cached_def build_def)
  have b': "execute_result ?env = Inr (Response None)
      \<or> execute_result ?env = Inr (Response (Some []))"
    by simp
  show ?thesis
    using empty_result_gives_placeholder [OF a b] empty_result_gives_placeholder [OF a' b']
    by simp
qed

lemma fetch_service_error:
  "snd (get_sheets_service env) = Inl e \<Longrightarrow>
     fetch_roster_context env = ([Call_get_sheets_service], Inl e)"
  by (simp add: fetch_roster_context_def)

lemma fetch_execute_error:
  "snd (get_sheets_service env) = Inr svc \<Longrightarrow> execute_result env = Inl e \<Longrightarrow>
     fetch_roster_context env = ([Call_get_sheets_service, Call_execute], Inl e)"
  by (simp add: fetch_roster_context_def)

lemma main_fetch_failed:
  "snd (fetch_roster_context env) = Inl e \<Longrightarrow> is_Exception e \<Longrightarrow>
   \<forall>m. e \<noteq> FileNotFoundError m \<Longrightarrow>
     main env turns = (Returned, [Initializing, FetchFailed (str e)])"
  by (cases e) (simp_all add: main_def)

lemma main_credentials_not_found:
  "snd (fetch_roster_context env) = Inl (FileNotFoundError m) \<Longrightarrow>
     main env turns = (Returned, [Initializing, CredentialsNotFound, DownloadHint, PlaceHint])"
  by (simp add: main_def)

lemma service_token_error:
  "token_json env = Exists (Inl e) \<Longrightarrow> get_sheets_service env = (None, Inl e)"
  by (simp add: get_sheets_service_def load_cached_def)

lemma service_refresh_error:
  "token_json env = Exists (Inr creds) \<Longrightarrow> \<not> valid creds \<Longrightarrow> expired creds \<Longrightarrow>
   has_refresh_token creds \<Longrightarrow> creds_refresh env = Inl e \<Longrightarrow>
     get_sheets_service env = (None, Inl e)"
  by (simp add: get_sheets_service_def load_cached_def renew_and_save_def renew_def)

lemma service_no_client_secret:
  assumes "client_secrets env = Missing"
    and "token_json env = Missing
       \<or> (\<exists>creds. token_json env = Exists (Inr creds) \<and> \<not> valid creds
             \<and> \<not> (expired creds \<and> has_refresh_token creds))"
  shows "get_sheets_service env = (None, Inl (FileNotFoundError no_such_file))"
  using assms
  by (auto simp: get_sheets_service_def load_cached_def renew_and_save_def renew_def
      from_client_secrets_file_def)

text \<open>
  Claim C7. An exception raised while the roster is fetched (by the credential loader, as
  when the cached token cannot be read or refreshed, or by the spreadsheet call) leaves
  the fetcher as it is, the same exception with the same text, and the caller reports
  that text.
\<close>

theorem fetch_errors_propagate:
  "(snd (get_sheets_service env) = Inl e \<longrightarrow>
      fetch_roster_context env = ([Call_get_sheets_service], Inl e))
   \<and> (snd (get_sheets_service env) = Inr svc \<and> execute_result env = Inl e \<longrightarrow>
      fetch_roster_context env = ([Call_get_sheets_service, Call_execute], Inl e))
   \<and> (token_json env = Exists (Inl e) \<longrightarrow> snd (fetch_roster_context env) = Inl e)
   \<and> (token_json env = Exists (Inr creds) \<and> \<not> valid creds \<and> expired creds
        \<and> has_refresh_token creds \<and> creds_refresh env = Inl e \<longrightarrow>
      snd (fetch_roster_context env) = Inl e)
   \<and> (snd (fetch_roster_context env) = Inl e \<and> is_Exception e
        \<and> (\<forall>m. e \<noteq> FileNotFoundError m) \<longrightarrow>
      main env turns = (Returned, [Initializing, FetchFailed (str e)]))"
  using fetch_service_error [of env e] fetch_execute_error [of env svc e]
    service_token_error [of env e] service_refresh_error [of env creds e]
    main_fetch_failed [of env e turns]
  by auto

theorem fetch_errors_propagate_witness:
  "fetch_roster_context (env0\<lparr>execute_result := Inl (Exception ''HttpError 403'')\<rparr>)
     = ([Call_get_sheets_service, Call_execute], Inl (Exception ''HttpError 403''))
   \<and> main (env0\<lparr>execute_result := Inl (Exception ''HttpError 403'')\<rparr>) []
     = (Returned, [Initializing, FetchFailed ''HttpError 403''])
   \<and> fetch_roster_context (env0\<lparr>token_json := Exists (Inl (Exception ''bad token''))\<rparr>)
     = ([Call_get_sheets_service], Inl (Exception ''bad token''))
   \<and> snd (fetch_roster_context
        (env0\<lparr>token_json :=
             Exists (Inr \<lparr>valid = False, expired = True, refresh_token = Some ''1//0g''\<rparr>),
           creds_refresh := Inl (Exception ''invalid_grant'')\<rparr>))
     = Inl (Exception ''invalid_grant'')"
proof -
  let ?svc = "Service \<lparr>valid = True, expired = False, refresh_token = None\<rparr>"
  let ?e = "Exception ''HttpError 403''"
  let ?env = "env0\<lparr>execute_result := Inl ?e\<rparr>"
  let ?e' = "Exception ''bad token''"
  let ?env' = "env0\<lparr>token_json := Exists (Inl ?e')\<rparr>"
  let ?old = "\<lparr>valid = False, expired = True, refresh_token = Some ''1//0g''\<rparr>"
  let ?e'' = "Exception ''invalid_grant''"
  let ?env'' = "env0\<lparr>token_json := Exists (Inr ?old), creds_refresh := Inl ?e''\<rparr>"
  have r: "token_json ?env'' = Exists (Inr ?old) \<and> \<not> valid ?old \<and> expired ?old
      \<and> has_refresh_token ?old \<and> creds_refresh ?env'' = Inl ?e''"
    by (simp add: has_refresh_token_def)
  have a: "snd (get_sheets_service ?env) = Inr ?svc"
    by (simp add: env0_def get_sheets_service_def load_cached_def build_def)
  have b: "execute_result ?env = Inl ?e" by simp
  have c: "is_Exception ?e \<and> (\<forall>m. ?e \<noteq> FileNotFoundError m)" by simp
  have a': "snd (get_sheets_service ?env') = Inl ?e'"
    by (simp add: get_sheets_service_def load_cached_def)
  show ?thesis
    using fetch_errors_propagate [of ?env ?e ?svc ?old "[]"]
      fetch_errors_propagate [of ?env' ?e' ?svc ?old "[]"]
      fetch_errors_propagate [of ?env'' ?e'' ?svc ?old "[]"] a b c a' r
    by simp
qed

text \<open>
  Claim C8. With no client-secret descriptor on disk and no cached credential that is
  valid or can be refreshed, the credential loader fails with \<open>FileNotFoundError\<close>;
  \<open>main\<close> prints the diagnostic and returns, as it does, with the exception's text,
  when the fetch fails with another exception of the class \<open>Exception\<close>.
\<close>

theorem missing_client_secret_ends_run:
  assumes "client_secrets env = Missing"
    and "token_json env = Missing
       \<or> (\<exists>creds. token_json env = Exists (Inr creds) \<and> \<not> valid creds
             \<and> \<not> (expired creds \<and> has_refresh_token creds))"
  shows "get_sheets_service env = (None, Inl (FileNotFoundError no_such_file))
       \<and> fetch_roster_context env
           = ([Call_get_sheets_service], Inl (FileNotFoundError no_such_file))
       \<and> main env turns
           = (Returned, [Initializing, CredentialsNotFound, DownloadHint, PlaceHint])
       \<and> (snd (fetch_roster_context env') = Inl e \<and> is_Exception e
            \<and> (\<forall>m. e \<noteq> FileNotFoundError m) \<longrightarrow>
          main env' turns = (Returned, [Initializing, FetchFailed (str e)]))"
proof -
  have s: "get_sheets_service env = (None, Inl (FileNotFoundError no_such_file))"
    using assms by (rule service_no_client_secret)
  then have f: "fetch_roster_context env
      = ([Call_get_sheets_service], Inl (FileNotFoundError no_such_file))"
    using fetch_service_error [of env "FileNotFoundError no_such_file"] by simp
  then have m: "main env turns
      = (Returned, [Initializing, CredentialsNotFound, DownloadHint, PlaceHint])"
    using main_credentials_not_found [of env no_such_file turns] by simp
  show ?thesis using s f m main_fetch_failed [of env' e turns] by blast
qed

theorem missing_client_secret_ends_run_witness:
  "main (env0\<lparr>token_json := Missing\<rparr>) []
     = (Returned, [Initializing, CredentialsNotFound, DownloadHint, PlaceHint])
   \<and> main (env0\<lparr>token_json :=
         Exists (Inr \<lparr>valid = False, expired = True, refresh_token = None\<rparr>)\<rparr>) []
     = (Returned, [Initializing, CredentialsNotFound, DownloadHint, PlaceHint])
   \<and> main (env0\<lparr>execute_result := Inl (Exception ''HttpError 403'')\<rparr>) []
     = (Returned, [Initializing, FetchFailed ''HttpError 403''])"
proof -
  let ?c = "\<lparr>valid = False, expired = True, refresh_token = None\<rparr>"
  let ?e = "Exception ''HttpError 403''"
  let ?env1 = "env0\<lparr>token_json := Missing\<rparr>"
  let ?env2 = "env0\<lparr>token_json := Exists (Inr ?c)\<rparr>"
  let ?env3 = "env0\<lparr>execute_result := Inl ?e\<rparr>"
  have a1: "client_secrets ?env1 = Missing" and a2: "client_secrets ?env2 = Missing"
    by (simp_all add: env0_def)
  have b1: "token_json ?env1 = Missing
      \<or> (\<exists>creds. token_json ?env1 = Exists (Inr creds) \<and> \<not> valid creds
            \<and> \<not> (expired creds \<and> has_refresh_token creds))"
    by simp
  have b2: "token_json ?env2 = Missing
      \<or> (\<exists>creds. token_json ?env2 = Exists (Inr creds) \<and> \<not> valid creds
            \<and> \<not> (expired creds \<and> has_refresh_token creds))"
    by (simp add: has_refresh_token_def)
  have c: "snd (fetch_roster_context ?env3) = Inl ?e \<and> is_Exception ?e
      \<and> (\<forall>m. ?e \<noteq> FileNotFoundError m)"
    by (simp add: fetch_roster_context_def env0_def get_sheets_service_def load_cached_def
        build_def)
  show ?thesis
    using missing_client_secret_ends_run [OF a1 b1, of "[]" ?env3 ?e]
      missing_client_secret_ends_run [OF a2 b2, of "[]" ?env3 ?e] c
    by simp
qed


section \<open>Properties of the prompt builder\<close>

text \<open>
  Claim C5. The prompt builder is a function from the CSV text to the prompt text, with no
  failure among its results: the prompt is the fixed head of the template, the CSV text
  and the fixed tail, so equal CSV texts give equal prompts, of the length of the CSV
  text plus the 650 characters of the template.
\<close>

theorem build_system_prompt_template:
  "build_system_prompt roster_csv = prompt_head @ roster_csv @ prompt_tail
   \<and> length (build_system_prompt roster_csv) = length roster_csv + 650"
proof -
  have "length prompt_head = 625"
    by (simp add: prompt_head_def unlines_def)
  moreover have "length prompt_tail = 25"
    by (simp add: prompt_tail_def unlines_def)
  ultimately show ?thesis by (simp add: build_system_prompt_def)
qed

section \<open>Properties of trimming\<close>

lemma last_dropWhile_nonempty:
  "dropWhile P xs \<noteq> [] \<Longrightarrow> last (dropWhile P xs) = last xs"
  by (induction xs) (auto split: if_splits)

lemma rstrip_last: "rstrip s \<noteq> [] \<Longrightarrow> \<not> isspace (last (rstrip s))"
  unfolding rstrip_def using hd_dropWhile [of isspace "rev s"]
  by (simp add: last_rev)

lemma rstrip_hd: "rstrip s \<noteq> [] \<Longrightarrow> hd (rstrip s) = hd s"
  unfolding rstrip_def using last_dropWhile_nonempty [of isspace "rev s"]
  by (simp add: hd_rev last_rev)

lemma lstrip_hd: "lstrip s \<noteq> [] \<Longrightarrow> \<not> isspace (hd (lstrip s))"
  unfolding lstrip_def by (rule hd_dropWhile)

lemma rstrip_Nil: "rstrip [] = []"
  by (simp add: rstrip_def)

lemma strip_clean:
  "strip s \<noteq> [] \<Longrightarrow> \<not> isspace (hd (strip s)) \<and> \<not> isspace (last (strip s))"
proof -
  assume ne: "strip s \<noteq> []"
  then have "lstrip s \<noteq> []" by (auto simp: strip_def rstrip_Nil)
  then have "\<not> isspace (hd (lstrip s))" by (rule lstrip_hd)
  moreover have "hd (strip s) = hd (lstrip s)"
    using ne rstrip_hd [of "lstrip s"] by (simp add: strip_def)
  moreover have "\<not> isspace (last (strip s))"
    using ne rstrip_last [of "lstrip s"] by (simp add: strip_def)
  ultimately show ?thesis by simp
qed

lemma lstrip_self: "s = [] \<or> \<not> isspace (hd s) \<Longrightarrow> lstrip s = s"
  by (cases s) (auto simp: lstrip_def)

lemma rstrip_self: "s = [] \<or> \<not> isspace (last s) \<Longrightarrow> rstrip s = s"
  by (cases "rev s") (auto simp: rstrip_def last_rev hd_rev)

lemma strip_idem: "strip (strip s) = strip s"
proof (cases "strip s = []")
  case True
  then show ?thesis by (simp add: strip_def [of "[]"] lstrip_def rstrip_def)
next
  case False
  then have c: "\<not> isspace (hd (strip s))" "\<not> isspace (last (strip s))"
    using strip_clean by auto
  have "lstrip (strip s) = strip s" using c(1) by (simp add: lstrip_self)
  moreover have "rstrip (strip s) = strip s" using c(2) by (simp add: rstrip_self)
  ultimately show ?thesis by (simp add: strip_def [of "strip s"])
qed

lemma strip_all_space: "\<forall>c\<in>set s. isspace c \<Longrightarrow> strip s = []"
proof -
  assume "\<forall>c\<in>set s. isspace c"
  then have h: "lstrip s = []" unfolding lstrip_def by (induction s) auto
  show ?thesis unfolding strip_def h by (simp add: rstrip_def)
qed

lemma rstrip_pad: "\<forall>c\<in>set post. isspace c \<Longrightarrow> rstrip (s @ post) = rstrip s"
proof -
  assume "\<forall>c\<in>set post. isspace c"
  then have "dropWhile isspace (rev post @ rev s) = dropWhile isspace (rev s)"
    by (intro dropWhile_append2) simp
  then show ?thesis by (simp add: rstrip_def)
qed

lemma lstrip_pad: "\<forall>c\<in>set pre. isspace c \<Longrightarrow> lstrip (pre @ s) = lstrip s"
  by (simp add: lstrip_def dropWhile_append2)

lemma strip_pad:
  assumes "\<forall>c\<in>set pre. isspace c" "\<forall>c\<in>set post. isspace c"
  shows "strip (pre @ s @ post) = strip s"
proof (cases "\<forall>c\<in>set s. isspace c")
  case True
  then have "\<forall>c\<in>set (pre @ s @ post). isspace c" using assms by auto
  then show ?thesis using True by (simp only: strip_all_space)
next
  case False
  then obtain x where x: "x \<in> set s" "\<not> isspace x" by auto
  have "lstrip (pre @ s @ post) = lstrip (s @ post)" using assms(1) by (rule lstrip_pad)
  also have "\<dots> = lstrip s @ post"
    unfolding lstrip_def using x by (rule dropWhile_append1)
  finally show ?thesis using assms(2) by (simp add: strip_def rstrip_pad)
qed

section \<open>Properties of the chat loop\<close>

lemma exit_word_nonempty: "lower u \<in> set exit_words \<Longrightarrow> u \<noteq> []"
  by (auto simp: exit_words_def lower_def)

lemma iteration_exit:
  "lower (strip line) \<in> set exit_words \<Longrightarrow>
     iteration s \<lparr>typed = Inr line, reply = r\<rparr>
       = (Break, s\<lparr>stdout := stdout s @ [Prompt, Farewell]\<rparr>)"
  using exit_word_nonempty [of "strip line"]
  by (simp add: iteration_def print_def Let_def)

lemma iteration_blank:
  "strip line = [] \<Longrightarrow>
     iteration s \<lparr>typed = Inr line, reply = r\<rparr> = (Continue, s\<lparr>stdout := stdout s @ [Prompt]\<rparr>)"
  by (simp add: iteration_def print_def Let_def)

lemma iteration_send:
  "strip line \<noteq> [] \<Longrightarrow> lower (strip line) \<notin> set exit_words \<Longrightarrow>
     iteration s \<lparr>typed = Inr line, reply = r\<rparr>
       = (case r of
            Inl (In_send x) \<Rightarrow>
              handle x (s\<lparr>requests := requests s @ [strip line],
                          stdout := stdout s @ [Prompt]\<rparr>)
          | Inl (After_send content x) \<Rightarrow>
              handle x (s\<lparr>history := history s @ [(User, strip line), (Model, content)],
                          requests := requests s @ [strip line],
                          stdout := stdout s @ [Prompt]\<rparr>)
          | Inr text \<Rightarrow>
              (Continue, s\<lparr>history := history s @ [(User, strip line), (Model, text)],
                            requests := requests s @ [strip line],
                            stdout := stdout s @ [Prompt, MajelSays text]\<rparr>))"
  by (cases s)
    (simp add: iteration_def print_def Let_def send_message_def
      split: sum.splits failure.splits)


lemma main_loop:
  "snd (fetch_roster_context env) = Inr roster_csv \<Longrightarrow>
   chat_loop (init roster_csv [Initializing, RosterLoaded (length roster_csv), Online]) turns
     = (OFFLINE, s) \<Longrightarrow>
   main env turns = (Returned, stdout s)"
  by (simp add: main_def)

text \<open>
  Claim C2. When the line read, once trimmed and in lower case, is one of the exit words,
  the loop goes offline from any state: it prints the farewell after the prompt and leaves
  the history and the requests to the remote endpoint as they were, whatever the
  endpoint would have answered and whatever input follows. A program that had fetched
  its roster then returns from \<open>main\<close>.
\<close>

theorem exit_word_goes_offline:
  assumes "lower (strip line) \<in> set exit_words"
  shows "chat_loop s (\<lparr>typed = Inr line, reply = r\<rparr> # rest)
           = (OFFLINE, s\<lparr>stdout := stdout s @ [Prompt, Farewell]\<rparr>)
       \<and> (snd (fetch_roster_context env) = Inr roster_csv \<longrightarrow>
            main env (\<lparr>typed = Inr line, reply = r\<rparr> # rest)
              = (Returned, [Initializing, RosterLoaded (length roster_csv), Online,
                            Prompt, Farewell]))"
proof -
  have loop: "chat_loop s (\<lparr>typed = Inr line, reply = r\<rparr> # rest)
      = (OFFLINE, s\<lparr>stdout := stdout s @ [Prompt, Farewell]\<rparr>)" for s
    using iteration_exit [OF assms] by simp
  show ?thesis
    using loop main_loop [of env roster_csv "\<lparr>typed = Inr line, reply = r\<rparr> # rest"]
    by (simp add: loop init_def)
qed

theorem exit_word_goes_offline_witness:
  "lower (strip ''exit'') \<in> set exit_words \<and> lower (strip ''Exit'') \<in> set exit_words
   \<and> lower (strip ''QUIT'') \<in> set exit_words \<and> lower (strip ''q'') \<in> set exit_words
   \<and> chat_loop \<lparr>system_instruction = [], history = [], requests = [], stdout = []\<rparr>
        [\<lparr>typed = Inr ''QUIT'', reply = Inr ''unused''\<rparr>]
      = (OFFLINE, \<lparr>system_instruction = [], history = [], requests = [],
                   stdout = [Prompt, Farewell]\<rparr>)"
proof -
  have h: "lower (strip ''exit'') \<in> set exit_words" "lower (strip ''Exit'') \<in> set exit_words"
    "lower (strip ''QUIT'') \<in> set exit_words" "lower (strip ''q'') \<in> set exit_words"
    by code_simp+
  show ?thesis
    using h exit_word_goes_offline [OF h(3),
        of "\<lparr>system_instruction = [], history = [], requests = [], stdout = []\<rparr>"
           "Inr ''unused''" "[]"]
    by simp
qed

lemma handle_Exception:
  "is_Exception e \<Longrightarrow>
     handle \<lparr>exc = e, handler_interrupted = False\<rparr> s
       = (Continue, s\<lparr>stdout := stdout s @ [ErrorReport (str e)]\<rparr>)"
  by (cases e) (simp_all add: handle_def print_def)

lemma handle_KeyboardInterrupt:
  "handle \<lparr>exc = KeyboardInterrupt, handler_interrupted = False\<rparr> s
     = (Break, s\<lparr>stdout := stdout s @ [InterruptFarewell]\<rparr>)"
  by (simp add: handle_def print_def)


lemma handle_uncaught:
  "\<not> is_Exception e \<Longrightarrow> e \<noteq> KeyboardInterrupt \<Longrightarrow>
     handle \<lparr>exc = e, handler_interrupted = b\<rparr> s = (Raise e, s)"
  by (simp add: handle_def)

lemma fetch_env0: "snd (fetch_roster_context env0) = Inr placeholder"
  by (simp add: fetch_roster_context_def env0_def get_sheets_service_def load_cached_def
      build_def)

lemma status_report: "strip ''status report'' = ''status report''"
  "lower ''status report'' \<notin> set exit_words"
  by code_simp+

text \<open>
  Claim C3, as amended. When a message is sent and the remote call raises an exception
  of the class \<open>Exception\<close>, the pass prints the error with the exception's text and the
  loop goes on with the next turn, provided no interrupt arrives while the error is
  printed; with no further turn the loop is waiting for input. The same holds when the
  call returns and reading or printing the response raises, and then both turns are in
  the history. An exception of the send that is neither of the class \<open>Exception\<close> nor a
  keyboard interrupt is not handled and ends the loop.
\<close>

theorem send_failure_is_not_fatal:
  assumes "is_Exception e" and "strip line \<noteq> []" and "lower (strip line) \<notin> set exit_words"
  shows "iteration s
           \<lparr>typed = Inr line, reply = Inl (In_send \<lparr>exc = e, handler_interrupted = False\<rparr>)\<rparr>
           = (Continue, s\<lparr>requests := requests s @ [strip line],
                           stdout := stdout s @ [Prompt, ErrorReport (str e)]\<rparr>)
       \<and> chat_loop s
           (\<lparr>typed = Inr line, reply = Inl (In_send \<lparr>exc = e, handler_interrupted = False\<rparr>)\<rparr>
             # rest)
           = chat_loop (s\<lparr>requests := requests s @ [strip line],
                          stdout := stdout s @ [Prompt, ErrorReport (str e)]\<rparr>) rest
       \<and> fst (chat_loop s
           [\<lparr>typed = Inr line, reply = Inl (In_send \<lparr>exc = e, handler_interrupted = False\<rparr>)\<rparr>])
           = AWAITING_INPUT
       \<and> iteration s
           \<lparr>typed = Inr line,
            reply = Inl (After_send content \<lparr>exc = e, handler_interrupted = False\<rparr>)\<rparr>
           = (Continue, s\<lparr>history := history s @ [(User, strip line), (Model, content)],
                           requests := requests s @ [strip line],
                           stdout := stdout s @ [Prompt, ErrorReport (str e)]\<rparr>)
       \<and> (\<not> is_Exception x \<and> x \<noteq> KeyboardInterrupt \<longrightarrow>
            chat_loop s
              (\<lparr>typed = Inr line, reply = Inl (In_send \<lparr>exc = x, handler_interrupted = b\<rparr>)\<rparr>
                # rest)
            = (UNHANDLED x, s\<lparr>requests := requests s @ [strip line],
                                stdout := stdout s @ [Prompt]\<rparr>))"
proof -
  let ?ok = "\<lparr>exc = e, handler_interrupted = False\<rparr>"
  have one: "iteration s \<lparr>typed = Inr line, reply = Inl (In_send ?ok)\<rparr>
      = (Continue, s\<lparr>requests := requests s @ [strip line],
                      stdout := stdout s @ [Prompt, ErrorReport (str e)]\<rparr>)"
    using iteration_send [OF assms(2,3), of s "Inl (In_send ?ok)"]
      handle_Exception [OF assms(1)]
    by simp
  have two: "iteration s \<lparr>typed = Inr line, reply = Inl (After_send content ?ok)\<rparr>
      = (Continue, s\<lparr>history := history s @ [(User, strip line), (Model, content)],
                      requests := requests s @ [strip line],
                      stdout := stdout s @ [Prompt, ErrorReport (str e)]\<rparr>)"
    using iteration_send [OF assms(2,3), of s "Inl (After_send content ?ok)"]
      handle_Exception [OF assms(1)]
    by simp
  have three: "chat_loop s
        (\<lparr>typed = Inr line, reply = Inl (In_send \<lparr>exc = x, handler_interrupted = b\<rparr>)\<rparr> # rest)
      = (UNHANDLED x, s\<lparr>requests := requests s @ [strip line],
                          stdout := stdout s @ [Prompt]\<rparr>)"
    if "\<not> is_Exception x" "x \<noteq> KeyboardInterrupt"
    using iteration_send [OF assms(2,3), of s
        "Inl (In_send \<lparr>exc = x, handler_interrupted = b\<rparr>)"]
      handle_uncaught [OF that]
    by simp
  show ?thesis using one two three by simp
qed

theorem send_failure_is_not_fatal_witness:
  "chat_loop s0
     [\<lparr>typed = Inr ''status report'',
       reply = Inl (In_send \<lparr>exc = Exception ''503 unavailable'',
                              handler_interrupted = False\<rparr>)\<rparr>]
     = (AWAITING_INPUT,
        s0\<lparr>requests := [''status report''],
           stdout := [Prompt, ErrorReport ''503 unavailable'']\<rparr>)
   \<and> chat_loop s0
     [\<lparr>typed = Inr ''status report'',
       reply = Inl (In_send \<lparr>exc = BaseException ''exit'', handler_interrupted = False\<rparr>)\<rparr>]
     = (UNHANDLED (BaseException ''exit''),
        s0\<lparr>requests := [''status report''], stdout := [Prompt]\<rparr>)"
proof -
  have a: "is_Exception (Exception ''503 unavailable'')" by simp
  have b': "strip ''status report'' \<noteq> []" using status_report(1) by simp
  have c': "lower (strip ''status report'') \<notin> set exit_words" using status_report by simp
  have x: "\<not> is_Exception (BaseException ''exit'') \<and> BaseException ''exit'' \<noteq> KeyboardInterrupt"
    by simp
  show ?thesis
    using send_failure_is_not_fatal [OF a b' c', of s0 "[]" "[]" "BaseException ''exit''" False]
      status_report(1) x
    by (simp add: s0_def)
qed

text \<open>
  The claim as the spec states it, for every exception the send raises, fails: an
  exception outside the class \<open>Exception\<close> ends the loop and leaves \<open>main\<close>, and a keyboard
  interrupt raised by the send takes the loop offline.
\<close>

theorem send_failure_counterexample:
  "chat_loop s0
     [\<lparr>typed = Inr ''status report'',
       reply = Inl (In_send \<lparr>exc = BaseException ''exit'', handler_interrupted = False\<rparr>)\<rparr>]
     = (UNHANDLED (BaseException ''exit''),
        s0\<lparr>requests := [''status report''], stdout := [Prompt]\<rparr>)
   \<and> main env0
     [\<lparr>typed = Inr ''status report'',
       reply = Inl (In_send \<lparr>exc = BaseException ''exit'', handler_interrupted = False\<rparr>)\<rparr>]
     = (Uncaught (BaseException ''exit''), [Initializing, RosterLoaded 29, Online, Prompt])
   \<and> fst (chat_loop s0
     [\<lparr>typed = Inr ''status report'',
       reply = Inl (In_send \<lparr>exc = KeyboardInterrupt, handler_interrupted = False\<rparr>)\<rparr>])
     = OFFLINE"
proof -
  have b: "strip ''status report'' \<noteq> []" using status_report(1) by simp
  have c: "lower (strip ''status report'') \<notin> set exit_words" using status_report by simp
  have x: "\<not> is_Exception (BaseException ''exit'')" "BaseException ''exit'' \<noteq> KeyboardInterrupt"
    by simp_all
  have it: "iteration s
        \<lparr>typed = Inr ''status report'',
         reply = Inl (In_send \<lparr>exc = BaseException ''exit'', handler_interrupted = False\<rparr>)\<rparr>
      = (Raise (BaseException ''exit''),
         s\<lparr>requests := requests s @ [''status report''], stdout := stdout s @ [Prompt]\<rparr>)" for s
    using iteration_send [OF b c, of s
        "Inl (In_send \<lparr>exc = BaseException ''exit'', handler_interrupted = False\<rparr>)"]
      handle_uncaught [OF x] status_report(1)
    by simp
  have ki: "iteration s0
        \<lparr>typed = Inr ''status report'',
         reply = Inl (In_send \<lparr>exc = KeyboardInterrupt, handler_interrupted = False\<rparr>)\<rparr>
      = (Break, s0\<lparr>requests := requests s0 @ [''status report''],
                    stdout := stdout s0 @ [Prompt, InterruptFarewell]\<rparr>)"
    using iteration_send [OF b c, of s0
        "Inl (In_send \<lparr>exc = KeyboardInterrupt, handler_interrupted = False\<rparr>)"]
      handle_KeyboardInterrupt status_report(1)
    by simp
  have m: "main env0
      [\<lparr>typed = Inr ''status report'',
        reply = Inl (In_send \<lparr>exc = BaseException ''exit'', handler_interrupted = False\<rparr>)\<rparr>]
      = (Uncaught (BaseException ''exit''), [Initializing, RosterLoaded 29, Online, Prompt])"
    using fetch_env0 by (simp add: main_def it init_def placeholder_def)
  show ?thesis using it [of s0] ki m by (simp add: s0_def)
qed




text \<open>
  Claim C9. A blank line (one that is empty once trimmed) makes the loop pass to the next
  turn: the pass prints only the prompt, reaches no end state, and leaves the history
  and the requests to the remote endpoint unchanged.
\<close>

theorem blank_line_reloops:
  assumes "strip line = []"
  shows "iteration s \<lparr>typed = Inr line, reply = r\<rparr>
           = (Continue, s\<lparr>stdout := stdout s @ [Prompt]\<rparr>)
       \<and> chat_loop s (\<lparr>typed = Inr line, reply = r\<rparr> # rest)
           = chat_loop (s\<lparr>stdout := stdout s @ [Prompt]\<rparr>) rest
       \<and> chat_loop s [\<lparr>typed = Inr line, reply = r\<rparr>]
           = (AWAITING_INPUT, s\<lparr>stdout := stdout s @ [Prompt]\<rparr>)
       \<and> history (snd (iteration s \<lparr>typed = Inr line, reply = r\<rparr>)) = history s
       \<and> requests (snd (iteration s \<lparr>typed = Inr line, reply = r\<rparr>)) = requests s"
  using iteration_blank [OF assms, of s r] by simp

theorem blank_line_reloops_witness:
  "strip [] = []
   \<and> chat_loop s0 [\<lparr>typed = Inr [], reply = Inr ''unused''\<rparr>]
       = (AWAITING_INPUT, s0\<lparr>stdout := [Prompt]\<rparr>)"
proof -
  have a: "strip [] = []" by code_simp
  show ?thesis
    using a blank_line_reloops [OF a, of s0 "Inr ''unused''" "[]"]
    by (simp add: s0_def)
qed

lemma iteration_strip:
  "iteration s \<lparr>typed = Inr line, reply = r\<rparr> = iteration s \<lparr>typed = Inr (strip line), reply = r\<rparr>"
  by (simp add: iteration_def strip_idem Let_def)

lemma handle_requests: "requests (snd (handle x s)) = requests s"
  by (simp add: handle_def print_def)

lemma iteration_requests:
  "requests (snd (iteration s t)) = requests s
   \<or> (\<exists>m. trimmed m \<and> requests (snd (iteration s t)) = requests s @ [m])"
proof (cases "typed t")
  case (Inl e)
  then show ?thesis by (simp add: iteration_def handle_requests print_def)
next
  case (Inr line)
  show ?thesis
  proof (cases "strip line = [] \<or> lower (strip line) \<in> set exit_words")
    case True
    then show ?thesis using Inr by (auto simp: iteration_def print_def Let_def)
  next
    case False
    then have t: "trimmed (strip line)"
      using strip_clean [of line] by (simp add: trimmed_def)
    have "requests (snd (iteration s t)) = requests s @ [strip line]"
      using False Inr
      by (auto simp: iteration_def print_def Let_def send_message_def handle_requests
          split: sum.splits failure.splits)
    then show ?thesis using t by blast
  qed
qed

lemma chat_loop_requests:
  "\<exists>new. requests (snd (chat_loop s turns)) = requests s @ new \<and> (\<forall>m\<in>set new. trimmed m)"
proof (induction turns arbitrary: s)
  case Nil
  show ?case by simp
next
  case (Cons t turns)
  obtain c s' where it: "iteration s t = (c, s')" by (cases "iteration s t")
  from iteration_requests [of s t] it
  obtain one where one: "requests s' = requests s @ one" "\<forall>m\<in>set one. trimmed m"
    by auto
  show ?case
  proof (cases c)
    case Continue
    from Cons.IH [of s'] obtain new
      where new: "requests (snd (chat_loop s' turns)) = requests s' @ new"
        "\<forall>m\<in>set new. trimmed m"
      by blast
    have "requests (snd (chat_loop s (t # turns))) = requests s @ (one @ new)"
      using it Continue new(1) one(1) by simp
    moreover have "\<forall>m\<in>set (one @ new). trimmed m" using one(2) new(2) by auto
    ultimately show ?thesis by blast
  next
    case Break
    then show ?thesis using it one by auto
  next
    case (Raise e)
    then show ?thesis using it one by auto
  qed
qed

text \<open>
  Claim C10. A pass of the loop depends on the line read only through the trimmed line.
  A line of whitespace alone is treated as the empty line, an exit word between
  whitespace takes the loop offline, and every message the loop hands to the remote
  endpoint is non-empty and neither begins nor ends with whitespace.
\<close>

theorem input_is_stripped:
  "iteration s \<lparr>typed = Inr line, reply = r\<rparr>
     = iteration s \<lparr>typed = Inr (strip line), reply = r\<rparr>
   \<and> ((\<forall>c\<in>set line. isspace c) \<longrightarrow>
        iteration s \<lparr>typed = Inr line, reply = r\<rparr> = iteration s \<lparr>typed = Inr [], reply = r\<rparr>
        \<and> iteration s \<lparr>typed = Inr line, reply = r\<rparr>
            = (Continue, s\<lparr>stdout := stdout s @ [Prompt]\<rparr>))
   \<and> ((\<forall>c\<in>set pre. isspace c) \<and> (\<forall>c\<in>set post. isspace c)
        \<and> lower (strip word) \<in> set exit_words \<longrightarrow>
        chat_loop s (\<lparr>typed = Inr (pre @ word @ post), reply = r\<rparr> # rest)
          = (OFFLINE, s\<lparr>stdout := stdout s @ [Prompt, Farewell]\<rparr>))
   \<and> (\<exists>new. requests (snd (chat_loop s turns)) = requests s @ new
          \<and> (\<forall>m\<in>set new. m \<noteq> [] \<and> \<not> isspace (hd m) \<and> \<not> isspace (last m)))"
proof -
  have blank: "iteration s \<lparr>typed = Inr line, reply = r\<rparr> = iteration s \<lparr>typed = Inr [], reply = r\<rparr>
      \<and> iteration s \<lparr>typed = Inr line, reply = r\<rparr> = (Continue, s\<lparr>stdout := stdout s @ [Prompt]\<rparr>)"
    if "\<forall>c\<in>set line. isspace c"
    using iteration_blank [OF strip_all_space [OF that], of s r]
      iteration_blank [of "[]" s r] strip_all_space [of "[]"]
    by simp
  have padded: "chat_loop s (\<lparr>typed = Inr (pre @ word @ post), reply = r\<rparr> # rest)
      = (OFFLINE, s\<lparr>stdout := stdout s @ [Prompt, Farewell]\<rparr>)"
    if "\<forall>c\<in>set pre. isspace c" "\<forall>c\<in>set post. isspace c" "lower (strip word) \<in> set exit_words"
    using iteration_exit [of "pre @ word @ post" s r] strip_pad [OF that(1,2), of word] that(3)
    by simp
  have sent: "\<exists>new. requests (snd (chat_loop s turns)) = requests s @ new
      \<and> (\<forall>m\<in>set new. m \<noteq> [] \<and> \<not> isspace (hd m) \<and> \<not> isspace (last m))"
    using chat_loop_requests [of s turns] by (simp add: trimmed_def)
  show ?thesis using iteration_strip [of s line r] blank padded sent by blast
qed

theorem input_is_stripped_witness:
  "strip ''   '' = []
   \<and> iteration s0 \<lparr>typed = Inr ''   '', reply = Inr ''unused''\<rparr>
       = (Continue, s0\<lparr>stdout := [Prompt]\<rparr>)
   \<and> chat_loop s0 [\<lparr>typed = Inr (''  '' @ ''EXIT'' @ ''  ''), reply = Inr ''unused''\<rparr>]
       = (OFFLINE, s0\<lparr>stdout := [Prompt, Farewell]\<rparr>)"
proof -
  have a: "\<forall>c\<in>set ''   ''. isspace c" by code_simp
  have b: "\<forall>c\<in>set ''  ''. isspace c" by code_simp
  have c: "lower (strip ''EXIT'') \<in> set exit_words" by code_simp
  have "chat_loop s0 [\<lparr>typed = Inr (''  '' @ ''EXIT'' @ ''  ''), reply = Inr ''unused''\<rparr>]
      = (OFFLINE, s0\<lparr>stdout := stdout s0 @ [Prompt, Farewell]\<rparr>)"
    and "iteration s0 \<lparr>typed = Inr ''   '', reply = Inr ''unused''\<rparr>
      = (Continue, s0\<lparr>stdout := stdout s0 @ [Prompt]\<rparr>)"
    using input_is_stripped [of s0 "''   ''" "Inr ''unused''" "''  ''" "''  ''" "''EXIT''" "[]" "[]"]
      a b c
    by blast+
  moreover have "stdout s0 = []" by (simp add: s0_def)
  ultimately show ?thesis using strip_all_space [OF a] by simp
qed

end
